theory Spec2Isabelle
  imports Complex_Main "HOL-Library.Log_Nat" "HOL-Library.Sublist"
begin

section \<open>Strings and exceptions\<close>

text \<open>
  A Python \<open>str\<close> is a sequence of code points, and \<open>len\<close> counts code points; it is
  modelled as a list of code-point numbers. \<open>lit\<close> turns an ASCII literal into such a
  string.
\<close>

type_synonym pystr = "nat list"

definition lit :: "string \<Rightarrow> pystr" where
  "lit s = map of_char s"

text \<open>
  The exceptions that the modelled code can meet. All of them derive from Python's
  \<open>Exception\<close>. \<open>ZombieProcess\<close> is a subclass of \<open>NoSuchProcess\<close> in psutil;
  \<open>ParsingError\<close> stands for every \<open>configparser.Error\<close> raised while reading a file.
\<close>

datatype exn =
    NoSuchProcess | ZombieProcess | AccessDenied
  | TypeError | AttributeError | ValueError
  | ZeroDivisionError | OverflowError
  | ParsingError | OSError

definition bind_res :: "exn + 'a \<Rightarrow> ('a \<Rightarrow> exn + 'b) \<Rightarrow> exn + 'b" where
  "bind_res r f = (case r of Inl e \<Rightarrow> Inl e | Inr v \<Rightarrow> f v)"

section \<open>Floating point\<close>

text \<open>
  A finite Python \<open>float\<close> (an IEEE 754 binary64 number) is modelled by its exact value, a
  rational. \<open>fl\<close> rounds a rational to the nearest binary64 number, ties to even, with
  gradual underflow below \<open>2 powi (- 1022)\<close>; every arithmetic operation of the source is
  the exact operation followed by \<open>fl\<close>. Infinities and NaN are not represented. A true
  division that leaves the finite range raises \<open>OverflowError\<close> (see \<open>truediv\<close>); the
  one product of the modelled code, \<open>q * 100\<close> in the disk percentage, leaves it only for
  a quotient above \<open>10 ^ 306\<close>, and is then represented by a value of at least \<open>2 ^ 1024\<close>.
\<close>

definition round_half_even :: "rat \<Rightarrow> int" where
  "round_half_even x =
     (let f = \<lfloor>x\<rfloor>; d = x - of_int f
      in if d < 1 / 2 then f
         else if 1 / 2 < d then f + 1
         else if even f then f else f + 1)"

text \<open>The binary exponent of a positive rational: \<open>2 powi ilog2 x \<le> x < 2 powi (ilog2 x + 1)\<close>.\<close>

definition ilog2 :: "rat \<Rightarrow> int" where
  "ilog2 x = (if 1 \<le> x then bitlen \<lfloor>x\<rfloor> - 1 else - bitlen (\<lceil>1 / x\<rceil> - 1))"

definition fl :: "rat \<Rightarrow> rat" where
  "fl x =
     (if x = 0 then 0
      else let s = max (ilog2 \<bar>x\<bar> - 52) (- 1074)
           in of_int (round_half_even (x / 2 powi s)) * 2 powi s)"

text \<open>
  A quotient whose magnitude reaches \<open>2 ^ 1024 - 2 ^ 970\<close> (half way between the largest
  binary64 number and \<open>2 ^ 1024\<close>) does not round to a finite number.
\<close>

definition dbl_overflow :: "rat \<Rightarrow> bool" where
  "dbl_overflow q \<longleftrightarrow> 2 ^ 1024 - 2 ^ 970 \<le> \<bar>q\<bar>"

text \<open>
  Python's \<open>a / b\<close> on integers, or on a float and an integer: the correctly rounded
  quotient. Division by zero raises \<open>ZeroDivisionError\<close>; an integer quotient too large
  for a float raises \<open>OverflowError\<close>.
\<close>

definition truediv :: "rat \<Rightarrow> rat \<Rightarrow> exn + rat" where
  "truediv a b =
     (if b = 0 then Inl ZeroDivisionError
      else if dbl_overflow (a / b) then Inl OverflowError
      else Inr (fl (a / b)))"

subsection \<open>Formatting with \<open>.1f\<close>\<close>

text \<open>
  \<open>f"{x:.1f}"\<close> prints the decimal expansion of the exact value of \<open>x\<close>, correctly rounded
  (ties to even) to one place after the point. Code point 48 is the digit zero, 46 the
  point, 45 the minus sign.
\<close>

fun digits_of :: "nat \<Rightarrow> pystr" where
  "digits_of n = (if n < 10 then [48 + n] else digits_of (n div 10) @ [48 + n mod 10])"

declare digits_of.simps [simp del]

definition fmt1 :: "rat \<Rightarrow> pystr" where
  "fmt1 x =
     (let m = nat (round_half_even (\<bar>x\<bar> * 10))
      in (if x < 0 then [45] else []) @ digits_of (m div 10) @ [46] @ [48 + m mod 10])"

definition is_digit :: "nat \<Rightarrow> bool" where
  "is_digit c \<longleftrightarrow> 48 \<le> c \<and> c \<le> 57"

section \<open>Utilities\<close>

text \<open>
  \<^verbatim>\<open>
  def bytes2human(n):
      for u in ["B", "K", "M", "G", "T"]:
          if n < 1024:
              return f"{n:.1f}{u}"
          n /= 1024
      return f"{n:.1f}P"
  \<close>
  The argument is a byte count, a non-negative Python integer. The loop over the unit
  names is the recursion over the list; the running value is an integer in the first
  round and a float afterwards, and in both cases \<open>n / 1024\<close> is \<open>truediv\<close>.
\<close>

definition units :: "pystr list" where
  "units = [lit ''B'', lit ''K'', lit ''M'', lit ''G'', lit ''T'']"

fun bytes2human_loop :: "pystr list \<Rightarrow> rat \<Rightarrow> exn + pystr" where
  "bytes2human_loop [] n = Inr (fmt1 n @ lit ''P'')"
| "bytes2human_loop (u # us) n =
     (if n < 1024 then Inr (fmt1 n @ u)
      else bind_res (truediv n 1024) (bytes2human_loop us))"

definition bytes2human :: "nat \<Rightarrow> exn + pystr" where
  "bytes2human n = bytes2human_loop units (of_nat n)"

text \<open>
  The description of the same function in the specification's words: divide by 1024
  repeatedly, take the first unit of B, K, M, G, T at which the scaled value is below
  1024 and P otherwise, and print the scaled value with one decimal place and the unit.
\<close>

definition scaled :: "nat \<Rightarrow> nat \<Rightarrow> rat" where
  "scaled n k = ((\<lambda>v. fl (v / 1024)) ^^ k) (of_nat n)"

definition unit_index :: "nat \<Rightarrow> nat" where
  "unit_index n =
     (case find (\<lambda>k. scaled n k < 1024) [0, 1, 2, 3, 4] of Some k \<Rightarrow> k | None \<Rightarrow> 5)"

definition bytes_to_human_spec :: "nat \<Rightarrow> pystr" where
  "bytes_to_human_spec n =
     fmt1 (scaled n (unit_index n)) @ (units @ [lit ''P'']) ! unit_index n"

text \<open>
  The colour themes: Python dictionaries with the same nine keys, modelled as a record.
\<close>

record theme =
  bg :: pystr
  panel :: pystr
  fg :: pystr
  accent :: pystr
  warn :: pystr
  crit :: pystr
  disk :: pystr
  swap :: pystr
  status :: pystr

definition dark :: theme where
  "dark = \<lparr>bg = lit ''#121212'', panel = lit ''#1e1e1e'', fg = lit ''#e0e0e0'',
     accent = lit ''#4caf50'', warn = lit ''#ff9800'', crit = lit ''#f44336'',
     disk = lit ''#03a9f4'', swap = lit ''#9c27b0'', status = lit ''#888888''\<rparr>"

definition light :: theme where
  "light = \<lparr>bg = lit ''#f5f5f5'', panel = lit ''#e0e0e0'', fg = lit ''#202020'',
     accent = lit ''#388e3c'', warn = lit ''#f57c00'', crit = lit ''#d32f2f'',
     disk = lit ''#0288d1'', swap = lit ''#7b1fa2'', status = lit ''#555555''\<rparr>"

text \<open>
  \<^verbatim>\<open>
  def color_for_load(pct, colors):
      if pct < 50: return colors["accent"]
      if pct < 75: return colors["warn"]
      return colors["crit"]
  \<close>
\<close>

definition color_for_load :: "rat \<Rightarrow> theme \<Rightarrow> pystr" where
  "color_for_load pct colors =
     (if pct < 50 then accent colors
      else if pct < 75 then warn colors
      else crit colors)"

text \<open>
  The disk percentage of \<open>_update_mem_swap_disk\<close>:
  \<^verbatim>\<open>pct = (d.used/d.total)*100 if d.total else 0.0\<close>
  with \<open>d.used\<close> and \<open>d.total\<close> the byte counts of \<open>shutil.disk_usage\<close>.
\<close>

definition disk_pct :: "nat \<Rightarrow> nat \<Rightarrow> exn + rat" where
  "disk_pct d_used d_total =
     (if d_total \<noteq> 0
      then bind_res (truediv (of_nat d_used) (of_nat d_total)) (\<lambda>q. Inr (fl (q * 100)))
      else Inr 0)"

text \<open>
  The command column of \<open>_update_procs\<close>:
  \<^verbatim>\<open>if len(cmd) > 100: cmd = cmd[:97] + "..."\<close>
\<close>

definition truncate_cmd :: "pystr \<Rightarrow> pystr" where
  "truncate_cmd cmd = (if length cmd > 100 then take 97 cmd @ lit ''...'' else cmd)"

section \<open>The application state\<close>

text \<open>
  The fields of \<open>SysMon\<close> that the update loop and the interval shortcuts read or write:
  the three settings, the rows of the process table, the lines printed to standard
  error (one exception per line) and the delays of the pending \<open>after\<close> timers for
  \<open>_update_all\<close>. Labels and bar canvases are write-only display and are left out.
\<close>

record row =
  row_pid :: nat
  row_user :: pystr
  row_cpu :: pystr
  row_mem :: pystr
  row_virt :: pystr
  row_res :: pystr
  row_time :: pystr
  row_cmd :: pystr

record sysmon =
  font_size :: int
  update_interval :: int
  theme_mode :: pystr
  tree :: "row list"
  stderr :: "exn list"
  pending :: "int list"

text \<open>
  \<^verbatim>\<open>
  def _increase_interval(self, e=None):
      self.update_interval = min(self.update_interval + 500, 10000)
  def _decrease_interval(self, e=None):
      self.update_interval = max(self.update_interval - 500, 250)
  \<close>
\<close>

definition increase_interval :: "sysmon \<Rightarrow> sysmon" where
  "increase_interval s = s\<lparr>update_interval := min (update_interval s + 500) 10000\<rparr>"

definition decrease_interval :: "sysmon \<Rightarrow> sysmon" where
  "decrease_interval s = s\<lparr>update_interval := max (update_interval s - 500) 250\<rparr>"

text \<open>A sequence of key presses Alt-plus and Alt-minus, handled one after the other.\<close>

datatype request = Increase | Decrease

fun handle :: "sysmon \<Rightarrow> request \<Rightarrow> sysmon" where
  "handle s Increase = increase_interval s"
| "handle s Decrease = decrease_interval s"

definition handle_all :: "request list \<Rightarrow> sysmon \<Rightarrow> sysmon" where
  "handle_all reqs s = foldl handle s reqs"

section \<open>The process table\<close>

text \<open>
  What \<open>psutil.process_iter(attrs)\<close> yields for one process: the \<open>info\<close> dictionary and
  the outcome of a later call of \<open>p.name()\<close>. psutil fills \<open>info\<close> before it yields the
  process, and stores \<open>None\<close> for an attribute whose read was denied (its \<open>ad_value\<close>);
  a process that has vanished by then is not yielded at all. The \<open>pid\<close> entry is always
  present. \<open>p.name()\<close> is read when the loop body runs, and can raise.
\<close>

record pmem =
  rss :: nat
  vms :: nat

record proc =
  pid :: nat
  username :: "pystr option"
  cpu_percent :: "rat option"
  memory_percent :: "rat option"
  memory_info :: "pmem option"
  cmdline :: "pystr list option"
  create_time :: "rat option"
  name :: "exn + pystr"

text \<open>\<open>sep.join(words)\<close>\<close>

fun join :: "pystr \<Rightarrow> pystr list \<Rightarrow> pystr" where
  "join sep [] = []"
| "join sep [w] = w"
| "join sep (w # v # ws) = w @ sep @ join sep (v # ws)"

text \<open>\<open>i["cmdline"] or [p.name()]\<close>: \<open>None\<close> and the empty list are both false.\<close>

definition command_words :: "proc \<Rightarrow> exn + pystr list" where
  "command_words p =
     (case cmdline p of
        None \<Rightarrow> bind_res (name p) (\<lambda>n. Inr [n])
      | Some [] \<Rightarrow> bind_res (name p) (\<lambda>n. Inr [n])
      | Some (w # ws) \<Rightarrow> Inr (w # ws))"

text \<open>
  \<open>time.strftime("%H:%M:%S", time.localtime(t))\<close> depends on the time zone and the
  clock of the host; it is a parameter of the model, of this type.
\<close>

type_synonym clock = "rat option \<Rightarrow> exn + pystr"

text \<open>
  The body of the \<open>try\<close> in \<open>_update_procs\<close>, in evaluation order:
  \<^verbatim>\<open>
  i = p.info
  cmd = " ".join(i["cmdline"] or [p.name()])
  if len(cmd) > 100: cmd = cmd[:97] + "..."
  rows.append((
      i["pid"],
      i["username"] or "",
      f"{i['cpu_percent']:.1f}",
      f"{i['memory_percent']:.1f}",
      bytes2human(i["memory_info"].vms),
      bytes2human(i["memory_info"].rss),
      time.strftime("%H:%M:%S", time.localtime(i["create_time"])),
      cmd
  ))
  \<close>
  Formatting \<open>None\<close> with \<open>.1f\<close> raises \<open>TypeError\<close>, and \<open>None.vms\<close> raises
  \<open>AttributeError\<close>.
\<close>

definition try_row :: "clock \<Rightarrow> proc \<Rightarrow> exn + row" where
  "try_row strftime p =
     bind_res (command_words p) (\<lambda>words.
     bind_res (case cpu_percent p of None \<Rightarrow> Inl TypeError | Some c \<Rightarrow> Inr (fmt1 c)) (\<lambda>cpu.
     bind_res (case memory_percent p of None \<Rightarrow> Inl TypeError | Some m \<Rightarrow> Inr (fmt1 m)) (\<lambda>mem.
     bind_res (case memory_info p of None \<Rightarrow> Inl AttributeError | Some mi \<Rightarrow> bytes2human (vms mi)) (\<lambda>virt.
     bind_res (case memory_info p of None \<Rightarrow> Inl AttributeError | Some mi \<Rightarrow> bytes2human (rss mi)) (\<lambda>res.
     bind_res (strftime (create_time p)) (\<lambda>tm.
     Inr \<lparr>row_pid = pid p,
          row_user = (case username p of None \<Rightarrow> [] | Some u \<Rightarrow> u),
          row_cpu = cpu, row_mem = mem, row_virt = virt, row_res = res,
          row_time = tm,
          row_cmd = truncate_cmd (join (lit '' '') words)\<rparr>))))))"

text \<open>\<open>except (psutil.NoSuchProcess, psutil.AccessDenied): continue\<close>\<close>

fun caught :: "exn \<Rightarrow> bool" where
  "caught NoSuchProcess = True"
| "caught ZombieProcess = True"
| "caught AccessDenied = True"
| "caught _ = False"

text \<open>The \<open>for\<close> loop: \<open>rows\<close> is the list built so far.\<close>

fun build_rows :: "clock \<Rightarrow> proc list \<Rightarrow> row list \<Rightarrow> exn + row list" where
  "build_rows strftime [] rows = Inr rows"
| "build_rows strftime (p # ps) rows =
     (case try_row strftime p of
        Inr r \<Rightarrow> build_rows strftime ps (rows @ [r])
      | Inl e \<Rightarrow> if caught e then build_rows strftime ps rows else Inl e)"

text \<open>
  \<open>float(s)\<close> for a string in the notation that \<open>.1f\<close> prints: an optional minus sign,
  digits, a point, digits; the result is the nearest float. The sort key is only ever
  applied to such strings; for any other string the model answers \<open>None\<close>.
\<close>

definition nat_of_digits :: "pystr \<Rightarrow> nat option" where
  "nat_of_digits ds =
     (if ds \<noteq> [] \<and> list_all is_digit ds
      then Some (foldl (\<lambda>a c. 10 * a + (c - 48)) 0 ds) else None)"

definition float_of_str :: "pystr \<Rightarrow> rat option" where
  "float_of_str s =
     (let neg = (s \<noteq> [] \<and> hd s = 45);
          body = (if neg then tl s else s);
          ip = takeWhile (\<lambda>c. c \<noteq> 46) body;
          fp = drop 1 (dropWhile (\<lambda>c. c \<noteq> 46) body)
      in case nat_of_digits ip of
           None \<Rightarrow> None
         | Some a \<Rightarrow>
             (case nat_of_digits fp of
                None \<Rightarrow> None
              | Some b \<Rightarrow>
                  Some (fl ((if neg then - 1 else 1)
                             * (of_nat a + of_nat b / 10 ^ length fp)))))"

text \<open>
  The value that \<open>.1f\<close> prints for \<open>x\<close>: \<open>x\<close> rounded to one decimal place, ties to even.
\<close>

definition round1 :: "rat \<Rightarrow> rat" where
  "round1 x = (if x < 0 then - 1 else 1) * of_int (round_half_even (\<bar>x\<bar> * 10)) / 10"

text \<open>The sort key \<open>lambda r: float(r[2])\<close>.\<close>

definition cpu_key :: "row \<Rightarrow> rat" where
  "cpu_key r = (case float_of_str (row_cpu r) of Some v \<Rightarrow> v | None \<Rightarrow> 0)"

text \<open>
  \<open>rows.sort(key=lambda r: float(r[2]), reverse=True)\<close>. Python's sort is stable, and
  with \<open>reverse=True\<close> it still keeps elements with equal keys in their original order:
  it reverses the list, sorts it stably in ascending order and reverses the result.
  A key that cannot be computed raises \<open>ValueError\<close> out of the sort.
\<close>

definition sort_rows :: "row list \<Rightarrow> exn + row list" where
  "sort_rows rows =
     (if list_all (\<lambda>r. float_of_str (row_cpu r) \<noteq> None) rows
      then Inr (rev (sort_key cpu_key (rev rows)))
      else Inl ValueError)"

text \<open>The rows that \<open>_update_procs\<close> inserts into the table: \<open>rows[:80]\<close> after the sort.\<close>

definition update_procs_rows :: "clock \<Rightarrow> proc list \<Rightarrow> exn + row list" where
  "update_procs_rows strftime ps =
     bind_res (build_rows strftime ps []) (\<lambda>rows.
     bind_res (sort_rows rows) (\<lambda>sorted_rows. Inr (take 80 sorted_rows)))"

text \<open>
  The rows of the processes in enumeration order, without the processes that the loop
  skips: the reference list for the stability of the sort.
\<close>

definition enumerated_rows :: "clock \<Rightarrow> proc list \<Rightarrow> row list" where
  "enumerated_rows strftime ps =
     concat (map (\<lambda>p. case try_row strftime p of Inr r \<Rightarrow> [r] | Inl e \<Rightarrow> []) ps)"

section \<open>The update loop\<close>

text \<open>
  A step of the loop returns the exception it raised, if any, and the state it left.
  \<open>_update_procs\<close> empties the table first, so a snapshot that raises leaves it empty.
  The status line that it writes after the table is display only and is left out.
\<close>

definition update_procs :: "clock \<Rightarrow> proc list \<Rightarrow> sysmon \<Rightarrow> exn option \<times> sysmon" where
  "update_procs strftime ps s =
     (case update_procs_rows strftime ps of
        Inl e \<Rightarrow> (Some e, s\<lparr>tree := []\<rparr>)
      | Inr rows \<Rightarrow> (None, s\<lparr>tree := rows\<rparr>))"

text \<open>
  What the host answers during one tick: the exception that \<open>_update_cpu\<close> raises (if
  any), the exception that the memory, swap or disk query or the writing of their
  labels raises (if any), the used and total bytes of the root file system, the
  enumerated processes, the local clock, and the exception that \<open>_update_top_info\<close>
  raises (if any).
\<close>

record tick_env =
  cpu_error :: "exn option"
  mem_error :: "exn option"
  disk_used :: nat
  disk_total :: nat
  processes :: "proc list"
  local_clock :: clock
  top_error :: "exn option"

definition update_mem_swap_disk :: "tick_env \<Rightarrow> sysmon \<Rightarrow> exn option \<times> sysmon" where
  "update_mem_swap_disk env s =
     (case mem_error env of
        Some e \<Rightarrow> (Some e, s)
      | None \<Rightarrow>
          (case disk_pct (disk_used env) (disk_total env) of
             Inl e \<Rightarrow> (Some e, s)
           | Inr pct \<Rightarrow> (None, s)))"

text \<open>
  \<^verbatim>\<open>
  def _update_all(self):
      try:
          self._update_cpu()
          self._update_mem_swap_disk()
          self._update_procs()
          self._update_top_info()
      except Exception as e:
          print("Update error:", e, file=sys.stderr)
      self.after(self.update_interval, self._update_all)
  \<close>
  \<open>tick_body\<close> is the body of the \<open>try\<close>: it stops at the first step that raises.
\<close>

definition tick_body :: "tick_env \<Rightarrow> sysmon \<Rightarrow> exn option \<times> sysmon" where
  "tick_body env s =
     (case cpu_error env of
        Some e \<Rightarrow> (Some e, s)
      | None \<Rightarrow>
          (case update_mem_swap_disk env s of
             (Some e, s1) \<Rightarrow> (Some e, s1)
           | (None, s1) \<Rightarrow>
               (case update_procs (local_clock env) (processes env) s1 of
                  (Some e, s2) \<Rightarrow> (Some e, s2)
                | (None, s2) \<Rightarrow> (top_error env, s2))))"

definition update_all :: "tick_env \<Rightarrow> sysmon \<Rightarrow> sysmon" where
  "update_all env s =
     (case tick_body env s of
        (None, s1) \<Rightarrow> s1\<lparr>pending := pending s1 @ [update_interval s1]\<rparr>
      | (Some e, s1) \<Rightarrow>
          s1\<lparr>stderr := stderr s1 @ [e], pending := pending s1 @ [update_interval s1]\<rparr>)"

text \<open>
  The event loop fires the oldest pending timer, which runs \<open>_update_all\<close>; with no
  pending timer there is no further tick. \<open>mainloop\<close> runs one tick for each host
  answer of the list.
\<close>

definition fire :: "tick_env \<Rightarrow> sysmon \<Rightarrow> sysmon option" where
  "fire env s =
     (case pending s of
        [] \<Rightarrow> None
      | d # ds \<Rightarrow> Some (update_all env (s\<lparr>pending := ds\<rparr>)))"

fun mainloop :: "tick_env list \<Rightarrow> sysmon \<Rightarrow> sysmon option" where
  "mainloop [] s = Some s"
| "mainloop (env # envs) s =
     (case fire env s of None \<Rightarrow> None | Some s1 \<Rightarrow> mainloop envs s1)"

definition tick_raises :: "tick_env \<Rightarrow> sysmon \<Rightarrow> bool" where
  "tick_raises env s \<longleftrightarrow> fst (tick_body env s) \<noteq> None"

section \<open>Settings\<close>

text \<open>
  The configuration file as \<open>ConfigParser.read\<close> finds it: missing (a file that cannot
  be opened is skipped silently), not parsable (\<open>read\<close> raises a \<open>configparser.Error\<close>),
  or parsed into sections of options. Values are taken as \<open>get\<close> returns them.
  \<open>cfg_path\<close> is assumed to succeed.
\<close>

type_synonym config = "(pystr \<times> (pystr \<times> pystr) list) list"

datatype cfg_file = Missing | Corrupt | Parsed config

definition read_cfg :: "cfg_file \<Rightarrow> exn + config" where
  "read_cfg f = (case f of Missing \<Rightarrow> Inr [] | Corrupt \<Rightarrow> Inl ParsingError | Parsed c \<Rightarrow> Inr c)"

text \<open>
  The lookup behind \<open>cfg.get(section, option, fallback=...)\<close>: the option of the section,
  else the option of the \<open>DEFAULT\<close> section; \<open>None\<close> when the section or the option is
  absent, which is where the fallback applies.
\<close>

definition lookup_option :: "config \<Rightarrow> pystr \<Rightarrow> pystr \<Rightarrow> pystr option" where
  "lookup_option cfg section option =
     (case map_of cfg section of
        None \<Rightarrow> None
      | Some opts \<Rightarrow>
          (case map_of opts option of
             Some v \<Rightarrow> Some v
           | None \<Rightarrow>
               (case map_of cfg (lit ''DEFAULT'') of
                  None \<Rightarrow> None
                | Some defaults \<Rightarrow> map_of defaults option)))"

definition get :: "config \<Rightarrow> pystr \<Rightarrow> pystr \<Rightarrow> pystr \<Rightarrow> pystr" where
  "get cfg section option fallback =
     (case lookup_option cfg section option of None \<Rightarrow> fallback | Some v \<Rightarrow> v)"

text \<open>
  \<open>cfg.getint(section, option, fallback=...)\<close> converts a value that is present with
  Python's \<open>int\<close>, and the fallback does not cover a failed conversion. \<open>int_of\<close> is
  Python's \<open>int\<close> on strings, \<open>None\<close> where it raises \<open>ValueError\<close>.
\<close>

definition getint :: "(pystr \<Rightarrow> int option) \<Rightarrow> config \<Rightarrow> pystr \<Rightarrow> pystr \<Rightarrow> int \<Rightarrow> exn + int" where
  "getint int_of cfg section option fallback =
     (case lookup_option cfg section option of
        None \<Rightarrow> Inr fallback
      | Some v \<Rightarrow> (case int_of v of None \<Rightarrow> Inl ValueError | Some k \<Rightarrow> Inr k))"

text \<open>
  \<^verbatim>\<open>
  def load_settings():
      cfg = ConfigParser()
      cfg.read(cfg_path())
      fs = cfg.getint("ui", "font_size", fallback=10)
      interval = cfg.getint("ui", "update_interval_ms", fallback=1000)
      theme_mode = cfg.get("ui", "theme_mode", fallback="auto")
      return fs, interval, theme_mode
  \<close>
\<close>

definition load_settings :: "(pystr \<Rightarrow> int option) \<Rightarrow> cfg_file \<Rightarrow> exn + int \<times> int \<times> pystr" where
  "load_settings int_of f =
     bind_res (read_cfg f) (\<lambda>cfg.
     bind_res (getint int_of cfg (lit ''ui'') (lit ''font_size'') 10) (\<lambda>fs.
     bind_res (getint int_of cfg (lit ''ui'') (lit ''update_interval_ms'') 1000) (\<lambda>interval.
     Inr (fs, interval, get cfg (lit ''ui'') (lit ''theme_mode'') (lit ''auto'')))))"

section \<open>Example inputs\<close>

text \<open>A running application with an interval of nine seconds and one pending timer.\<close>

definition app0 :: sysmon where
  "app0 = \<lparr>font_size = 10, update_interval = 9000, theme_mode = lit ''auto'',
           tree = [], stderr = [], pending = [9000]\<rparr>"

text \<open>
  A clock that prints every time as noon, and processes as \<open>process_iter\<close> can yield
  them: two whose CPU values \<open>0.3125\<close> and \<open>0.34375\<close> both print as \<open>0.3\<close>, a busy one,
  one whose command line was denied and whose name lookup finds it gone, and one
  whose CPU value was denied.
\<close>

definition noon :: clock where
  "noon t = Inr (lit ''12:00:00'')"

definition proc_a :: proc where
  "proc_a = \<lparr>pid = 1, username = Some (lit ''root''), cpu_percent = Some (5 / 16),
     memory_percent = Some (3 / 2), memory_info = Some \<lparr>rss = 4096, vms = 8192\<rparr>,
     cmdline = Some [lit ''init''], create_time = Some 0, name = Inr (lit ''init'')\<rparr>"

definition proc_b :: proc where
  "proc_b = \<lparr>pid = 2, username = None, cpu_percent = Some (11 / 32),
     memory_percent = Some 0, memory_info = Some \<lparr>rss = 0, vms = 0\<rparr>,
     cmdline = Some [], create_time = Some 5, name = Inr (lit ''kthreadd'')\<rparr>"

definition proc_hot :: proc where
  "proc_hot = \<lparr>pid = 3, username = Some (lit ''ann''), cpu_percent = Some (199 / 2),
     memory_percent = Some (25 / 2), memory_info = Some \<lparr>rss = 1048576, vms = 4000000000\<rparr>,
     cmdline = Some [lit ''python3'', lit ''main.py''], create_time = Some 60,
     name = Inr (lit ''python3'')\<rparr>"

definition proc_gone :: proc where
  "proc_gone = \<lparr>pid = 4, username = None, cpu_percent = Some 0,
     memory_percent = Some 0, memory_info = Some \<lparr>rss = 0, vms = 0\<rparr>,
     cmdline = None, create_time = Some 7, name = Inl NoSuchProcess\<rparr>"

definition proc_denied :: proc where
  "proc_denied = \<lparr>pid = 5, username = Some (lit ''bob''), cpu_percent = None,
     memory_percent = None, memory_info = None,
     cmdline = Some [lit ''sshd''], create_time = None, name = Inr (lit ''sshd'')\<rparr>"

definition row_a :: row where
  "row_a = \<lparr>row_pid = 1, row_user = lit ''root'', row_cpu = lit ''0.3'', row_mem = lit ''1.5'',
     row_virt = lit ''8.0K'', row_res = lit ''4.0K'', row_time = lit ''12:00:00'',
     row_cmd = lit ''init''\<rparr>"

definition row_b :: row where
  "row_b = \<lparr>row_pid = 2, row_user = [], row_cpu = lit ''0.3'', row_mem = lit ''0.0'',
     row_virt = lit ''0.0B'', row_res = lit ''0.0B'', row_time = lit ''12:00:00'',
     row_cmd = lit ''kthreadd''\<rparr>"

definition row_hot :: row where
  "row_hot = \<lparr>row_pid = 3, row_user = lit ''ann'', row_cpu = lit ''99.5'', row_mem = lit ''12.5'',
     row_virt = lit ''3.7G'', row_res = lit ''1.0M'', row_time = lit ''12:00:00'',
     row_cmd = lit ''python3 main.py''\<rparr>"

text \<open>Host answers for one tick: a healthy one and one with the denied process.\<close>

definition env_ok :: tick_env where
  "env_ok = \<lparr>cpu_error = None, mem_error = None, disk_used = 4000000000,
     disk_total = 8000000000, processes = [proc_a, proc_gone, proc_hot, proc_b],
     local_clock = noon, top_error = None\<rparr>"

definition env_bad :: tick_env where
  "env_bad = \<lparr>cpu_error = None, mem_error = None, disk_used = 4000000000,
     disk_total = 8000000000, processes = [proc_a, proc_denied],
     local_clock = noon, top_error = None\<rparr>"

text \<open>
  An instance of \<open>int_of\<close> for the examples: unsigned decimal digits only. A
  configuration that sets the font size and nothing else.
\<close>

definition int_of_decimal :: "pystr \<Rightarrow> int option" where
  "int_of_decimal s = map_option int (nat_of_digits s)"

definition cfg_font :: config where
  "cfg_font = [(lit ''ui'', [(lit ''font_size'', lit ''12'')])]"

section \<open>Properties of the floating-point model\<close>

lemma round_half_even_bounds:
  "\<lfloor>x\<rfloor> \<le> round_half_even x \<and> round_half_even x \<le> \<lfloor>x\<rfloor> + 1"
  by (simp add: round_half_even_def Let_def)

lemma round_half_even_of_int [simp]: "round_half_even (of_int k) = k"
  by (simp add: round_half_even_def)

lemma round_half_even_mono:
  assumes "x \<le> y"
  shows "round_half_even x \<le> round_half_even y"
proof (cases "\<lfloor>x\<rfloor> = \<lfloor>y\<rfloor>")
  case True
  with assms show ?thesis
    by (auto simp: round_half_even_def Let_def)
next
  case False
  with assms have "\<lfloor>x\<rfloor> + 1 \<le> \<lfloor>y\<rfloor>"
    using floor_mono [of x y] by linarith
  with round_half_even_bounds [of x] round_half_even_bounds [of y]
  show ?thesis by linarith
qed

lemma ilog2_bounds:
  assumes "0 < x"
  shows "2 powi (ilog2 x) \<le> x \<and> x < 2 powi (ilog2 x + 1)"
proof (cases "1 \<le> x")
  case True
  then have pos: "0 < \<lfloor>x\<rfloor>" by linarith
  define b where "b = bitlen \<lfloor>x\<rfloor>"
  have b1: "1 \<le> b"
    using pos bitlen_eq_zero_iff [of "\<lfloor>x\<rfloor>"] bitlen_nonneg [of "\<lfloor>x\<rfloor>"]
    unfolding b_def by linarith
  from bitlen_bounds [OF pos]
  have lo: "2 ^ nat (b - 1) \<le> \<lfloor>x\<rfloor>" and hi: "\<lfloor>x\<rfloor> < 2 ^ nat b"
    unfolding b_def by auto
  have "(2::rat) powi (b - 1) = of_int (2 ^ nat (b - 1))"
    using b1 by (simp add: power_int_def)
  also have "\<dots> \<le> of_int \<lfloor>x\<rfloor>" using lo by (simp only: of_int_le_iff)
  also have "\<dots> \<le> x" by simp
  finally have below: "2 powi (b - 1) \<le> x" .
  have "x < of_int (\<lfloor>x\<rfloor> + 1)" by linarith
  also have "\<dots> \<le> of_int (2 ^ nat b)" using hi by (simp only: of_int_le_iff)
  also have "\<dots> = (2::rat) powi b" using b1 by (simp add: power_int_def)
  finally have above: "x < 2 powi b" .
  from below above True show ?thesis by (simp add: ilog2_def b_def)
next
  case False
  define y where "y = 1 / x"
  have y1: "1 < y" using False assms by (simp add: y_def)
  define c where "c = \<lceil>y\<rceil> - 1"
  have cpos: "0 < c" using y1 unfolding c_def by linarith
  define b where "b = bitlen c"
  have b1: "1 \<le> b" using cpos bitlen_eq_zero_iff [of c] bitlen_nonneg [of c]
    unfolding b_def by linarith
  from bitlen_bounds [OF cpos]
  have lo: "2 ^ nat (b - 1) \<le> c" and hi: "c < 2 ^ nat b"
    unfolding b_def by auto
  have "y \<le> of_int (c + 1)" unfolding c_def by simp
  also have "\<dots> \<le> of_int (2 ^ nat b)" using hi by (simp only: of_int_le_iff)
  also have "\<dots> = (2::rat) powi b" using b1 by (simp add: power_int_def)
  finally have y_le: "y \<le> 2 powi b" .
  have "(2::rat) powi (b - 1) = of_int (2 ^ nat (b - 1))"
    using b1 by (simp add: power_int_def)
  also have "\<dots> \<le> of_int c" using lo by (simp only: of_int_le_iff)
  also have "\<dots> < y" unfolding c_def by linarith
  finally have y_gt: "2 powi (b - 1) < y" .
  have ypos: "0 < y" using y1 by simp
  have x_eq: "x = inverse y" by (simp add: y_def)
  have "inverse ((2::rat) powi b) \<le> inverse y"
    using y_le ypos by (simp add: le_imp_inverse_le)
  then have below: "2 powi (- b) \<le> x"
    by (simp add: power_int_minus x_eq)
  have "inverse y < inverse ((2::rat) powi (b - 1))"
    using y_gt by (simp add: less_imp_inverse_less)
  then have above: "x < 2 powi (- b + 1)"
    by (simp add: x_eq flip: power_int_minus)
  from below above False show ?thesis
    by (simp add: ilog2_def b_def c_def y_def)
qed

lemma ilog2_mono:
  assumes "0 < x" "x \<le> y"
  shows "ilog2 x \<le> ilog2 y"
proof (rule ccontr)
  assume "\<not> ilog2 x \<le> ilog2 y"
  then have "ilog2 y + 1 \<le> ilog2 x" by simp
  then have "(2::rat) powi (ilog2 y + 1) \<le> 2 powi (ilog2 x)"
    by (intro power_int_increasing) auto
  moreover have "y < 2 powi (ilog2 y + 1)" using ilog2_bounds [of y] assms by simp
  moreover have "2 powi (ilog2 x) \<le> x" using ilog2_bounds [of x] assms by simp
  ultimately show False using assms by linarith
qed

text \<open>Rounding on a fixed grid \<open>2 powi s\<close> is monotone and keeps the grid points.\<close>

lemma grid_round_mono:
  assumes "x \<le> y"
  shows "of_int (round_half_even (x / 2 powi s)) * (2::rat) powi s
       \<le> of_int (round_half_even (y / 2 powi s)) * 2 powi s"
proof -
  have "x / 2 powi s \<le> y / (2::rat) powi s"
    using assms by (simp add: divide_right_mono)
  then have "round_half_even (x / 2 powi s) \<le> round_half_even (y / 2 powi s)"
    by (rule round_half_even_mono)
  then show ?thesis
    by (simp add: mult_right_mono)
qed

lemma grid_round_exact:
  assumes "s \<le> e"
  shows "of_int (round_half_even (2 powi e / 2 powi s)) * (2::rat) powi s = 2 powi e"
proof -
  have "(2::rat) powi e / 2 powi s = 2 powi (e - s)"
    by (simp add: power_int_diff)
  also have "\<dots> = of_int (2 ^ nat (e - s))"
    using assms by (simp add: power_int_def)
  finally have "round_half_even ((2::rat) powi e / 2 powi s) = 2 ^ nat (e - s)"
    by (simp only: round_half_even_of_int)
  then have "of_int (round_half_even (2 powi e / 2 powi s)) * (2::rat) powi s
      = 2 powi (e - s) * 2 powi s"
    using assms by (simp add: power_int_def)
  also have "\<dots> = 2 powi e"
    by (simp flip: power_int_add)
  finally show ?thesis .
qed

lemma fl_pos_eq:
  assumes "0 < x"
  shows "fl x = of_int (round_half_even (x / 2 powi (max (ilog2 x - 52) (- 1074))))
                * 2 powi (max (ilog2 x - 52) (- 1074))"
  using assms by (simp add: fl_def Let_def)

lemma fl_nonneg:
  assumes "0 \<le> x"
  shows "0 \<le> fl x"
proof (cases "x = 0")
  case True
  then show ?thesis by (simp add: fl_def)
next
  case False
  with assms have pos: "0 < x" by simp
  let ?s = "max (ilog2 x - 52) (- 1074)"
  have "0 \<le> x / 2 powi ?s" using pos by simp
  then have "round_half_even 0 \<le> round_half_even (x / 2 powi ?s)"
    by (rule round_half_even_mono)
  then have "0 \<le> round_half_even (x / 2 powi ?s)"
    using round_half_even_of_int [of 0] by simp
  then show ?thesis
    using pos by (simp add: fl_pos_eq)
qed

text \<open>
  Rounding to the nearest float is monotone on the non-negative numbers: within one
  binade the grid is fixed, and between two binades lies a power of two, which is a
  float.
\<close>

lemma fl_mono:
  assumes "0 \<le> x" "x \<le> y"
  shows "fl x \<le> fl y"
proof (cases "x = 0")
  case True
  then show ?thesis using fl_nonneg [of y] assms by (simp add: fl_def)
next
  case False
  with assms have px: "0 < x" and py: "0 < y" by simp_all
  let ?sx = "max (ilog2 x - 52) (- 1074)"
  let ?sy = "max (ilog2 y - 52) (- 1074)"
  have le: "ilog2 x \<le> ilog2 y" using ilog2_mono [OF px assms(2)] .
  show ?thesis
  proof (cases "?sx = ?sy")
    case True
    then show ?thesis
      using grid_round_mono [OF assms(2), of ?sy] px py by (simp add: fl_pos_eq)
  next
    case False
    with le have sy: "?sy = ilog2 y - 52" and lt: "ilog2 x < ilog2 y" and sxy: "?sx \<le> ?sy"
      by (auto simp: max_def split: if_splits)
    let ?e = "ilog2 y"
    have "x < 2 powi (ilog2 x + 1)" using ilog2_bounds [OF px] by simp
    also have "\<dots> \<le> 2 powi ?e" using lt by (intro power_int_increasing) auto
    finally have xe: "x \<le> 2 powi ?e" by simp
    have ey: "2 powi ?e \<le> y" using ilog2_bounds [OF py] by simp
    have "fl x \<le> of_int (round_half_even (2 powi ?e / 2 powi ?sx)) * 2 powi ?sx"
      using grid_round_mono [OF xe, of ?sx] px by (simp add: fl_pos_eq)
    also have "\<dots> = 2 powi ?e"
      by (rule grid_round_exact) (use sxy sy in linarith)
    also have "\<dots> = of_int (round_half_even (2 powi ?e / 2 powi ?sy)) * 2 powi ?sy"
      by (rule grid_round_exact [symmetric]) (use sy in linarith)
    also have "\<dots> \<le> fl y"
      using grid_round_mono [OF ey, of ?sy] py by (simp add: fl_pos_eq)
    finally show ?thesis .
  qed
qed

text \<open>Evaluation of \<open>fl\<close> on numerals.\<close>

lemma floor_rat_numeral: "\<lfloor>numeral a / numeral b :: rat\<rfloor> = numeral a div numeral b"
  using floor_divide_of_int_eq [of "numeral a" "numeral b", where ?'a = rat] by simp

lemma ceiling_rat_numeral:
  "\<lceil>numeral a / numeral b :: rat\<rceil> = - (- numeral a div numeral b)"
  using ceiling_divide_eq_div [of "numeral a" "numeral b", where ?'a = rat] by simp

lemmas fl_eval = fl_def ilog2_def round_half_even_def compute_bitlen Let_def
  floor_rat_numeral ceiling_rat_numeral

lemma fl_one: "fl 1 = 1"
  by (simp add: fl_eval)

lemma fl_hundred: "fl 100 = 100"
  by (simp add: fl_eval)

lemma fl_pow54: "fl 18014398509481984 = 18014398509481984"
  by (simp add: fl_eval)

lemma not_overflow_small: "\<bar>q\<bar> \<le> 18446744073709551616 \<Longrightarrow> \<not> dbl_overflow q"
  by (simp add: dbl_overflow_def)

lemma truediv_ok:
  "b \<noteq> 0 \<Longrightarrow> \<bar>a / b\<bar> \<le> 18446744073709551616 \<Longrightarrow> truediv a b = Inr (fl (a / b))"
  by (simp add: truediv_def not_overflow_small)

section \<open>Byte counts\<close>

lemma scaled_0: "scaled n 0 = of_nat n"
  by (simp add: scaled_def)

lemma scaled_Suc: "scaled n (Suc k) = fl (scaled n k / 1024)"
  by (simp add: scaled_def)

lemma scaled_bounds:
  assumes "n < 2 ^ 64"
  shows "0 \<le> scaled n k \<and> scaled n k \<le> 18446744073709551616"
proof (induction k)
  case 0
  have "(of_nat n :: rat) \<le> of_nat (2 ^ 64)"
    using assms by (simp only: of_nat_le_iff)
  then show ?case by (simp add: scaled_0)
next
  case (Suc k)
  then have lo: "0 \<le> scaled n k / 1024" and hi: "scaled n k / 1024 \<le> 18014398509481984"
    by simp_all
  have "fl (scaled n k / 1024) \<le> fl 18014398509481984"
    using lo hi by (rule fl_mono)
  with fl_nonneg [OF lo] show ?case
    by (simp add: scaled_Suc fl_pow54)
qed

lemma truediv_scaled:
  assumes "n < 2 ^ 64"
  shows "truediv (scaled n k) 1024 = Inr (scaled n (Suc k))"
proof -
  from scaled_bounds [OF assms, of k]
  have "\<bar>scaled n k / 1024\<bar> \<le> 18446744073709551616" by simp
  then show ?thesis
    by (simp add: truediv_ok scaled_Suc)
qed

lemma digits_of_nonempty: "digits_of n \<noteq> []"
  by (subst digits_of.simps) simp

lemma digits_of_digits: "list_all is_digit (digits_of n)"
proof (induction n rule: digits_of.induct)
  case (1 n)
  show ?case
  proof (cases "n < 10")
    case True
    then show ?thesis by (subst digits_of.simps) (simp add: is_digit_def)
  next
    case False
    have "n mod 10 < 10" by simp
    then have "is_digit (48 + n mod 10)" unfolding is_digit_def by linarith
    with False "1.IH" show ?thesis by (subst digits_of.simps) simp
  qed
qed

lemma fmt1_shape:
  assumes "0 \<le> x"
  shows "\<exists>ds d. fmt1 x = ds @ [46, d] \<and> ds \<noteq> [] \<and> list_all is_digit ds \<and> is_digit d"
proof -
  define m where "m = nat (round_half_even (\<bar>x\<bar> * 10))"
  have "m mod 10 < 10" by simp
  then have "is_digit (48 + m mod 10)" unfolding is_digit_def by linarith
  moreover have "fmt1 x = digits_of (m div 10) @ [46, 48 + m mod 10]"
    using assms by (simp add: fmt1_def m_def Let_def)
  ultimately show ?thesis
    using digits_of_nonempty digits_of_digits by blast
qed

lemmas b2h_eval = bytes2human_def units_def bind_res_def truediv_def dbl_overflow_def
  fl_eval fmt1_def digits_of.simps lit_def

text \<open>
  Claim C8. For every byte count \<open>n\<close> below \<open>2 ^ 64\<close>, \<open>bytes2human\<close> returns, without
  raising, the value scaled by repeated division by 1024 at the first unit of B, K, M,
  G, T where it is below 1024 (P otherwise), printed as digits, a point and exactly
  one digit, followed by the unit.
\<close>

theorem bytes2human_spec:
  assumes "n < 2 ^ 64"
  shows "bytes2human n = Inr (bytes_to_human_spec n)
       \<and> (\<exists>ds d. bytes_to_human_spec n = ds @ [46, d] @ (units @ [lit ''P'']) ! unit_index n
                  \<and> ds \<noteq> [] \<and> list_all is_digit ds \<and> is_digit d)"
proof -
  note step = truediv_scaled [OF assms]
  have "bytes2human n = bytes2human_loop units (scaled n 0)"
    by (simp add: bytes2human_def scaled_0)
  also have "\<dots> = Inr (bytes_to_human_spec n)"
    by (simp add: units_def step bind_res_def bytes_to_human_spec_def unit_index_def
        eval_nat_numeral)
  finally have A: "bytes2human n = Inr (bytes_to_human_spec n)" .
  from fmt1_shape [OF conjunct1 [OF scaled_bounds [OF assms]], of "unit_index n"]
  have B: "\<exists>ds d. bytes_to_human_spec n = ds @ [46, d] @ (units @ [lit ''P'']) ! unit_index n
                  \<and> ds \<noteq> [] \<and> list_all is_digit ds \<and> is_digit d"
    by (auto simp: bytes_to_human_spec_def)
  from A B show ?thesis by blast
qed

text \<open>
  At four billion bytes the result is \<open>3.7G\<close>, at zero it is \<open>0.0B\<close>, and both agree with
  the description above.
\<close>

theorem bytes2human_spec_witness:
  "(4000000000::nat) < 2 ^ 64 \<and> (0::nat) < 2 ^ 64
   \<and> bytes2human 4000000000 = Inr (lit ''3.7G'')
   \<and> bytes_to_human_spec 4000000000 = lit ''3.7G''
   \<and> bytes2human 0 = Inr (lit ''0.0B'')
   \<and> bytes_to_human_spec 0 = lit ''0.0B''"
proof -
  have lt: "(4000000000::nat) < 2 ^ 64" and lt0: "(0::nat) < 2 ^ 64" by simp_all
  have a: "bytes2human 4000000000 = Inr (lit ''3.7G'')"
    by (simp add: b2h_eval)
  have b: "bytes2human 0 = Inr (lit ''0.0B'')"
    by (simp add: b2h_eval)
  from a bytes2human_spec [OF lt] have "bytes_to_human_spec 4000000000 = lit ''3.7G''"
    by simp
  moreover from b bytes2human_spec [OF lt0] have "bytes_to_human_spec 0 = lit ''0.0B''"
    by simp
  ultimately show ?thesis
    using a b lt by simp
qed

section \<open>Severity colours\<close>

text \<open>
  Claim C7. For a palette whose three tones differ, as in both built-in themes,
  \<open>color_for_load\<close> returns the normal tone exactly for \<open>pct < 50\<close>, the warning tone
  exactly for \<open>50 \<le> pct < 75\<close> and the critical tone exactly for \<open>75 \<le> pct\<close>; 50 gives
  warning and 75 gives critical.
\<close>

theorem color_for_load_tiers:
  assumes "distinct [accent colors, warn colors, crit colors]"
  shows "(color_for_load pct colors = accent colors \<longleftrightarrow> pct < 50)
       \<and> (color_for_load pct colors = warn colors \<longleftrightarrow> 50 \<le> pct \<and> pct < 75)
       \<and> (color_for_load pct colors = crit colors \<longleftrightarrow> 75 \<le> pct)
       \<and> color_for_load 50 colors = warn colors
       \<and> color_for_load 75 colors = crit colors"
  using assms by (auto simp: color_for_load_def)

theorem color_for_load_tiers_witness:
  "distinct [accent dark, warn dark, crit dark]
   \<and> distinct [accent light, warn light, crit light]
   \<and> color_for_load 42 dark = lit ''#4caf50''
   \<and> color_for_load 50 dark = lit ''#ff9800''
   \<and> color_for_load 75 dark = lit ''#f44336''
   \<and> color_for_load 90 light = lit ''#d32f2f''"
  using color_for_load_tiers [of dark 50] color_for_load_tiers [of light 90]
  by (simp add: dark_def light_def lit_def color_for_load_def)

section \<open>Disk percentage\<close>

lemma disk_pct_in_range:
  assumes "d_used \<le> d_total" and "d_total \<noteq> 0"
  shows "disk_pct d_used d_total = Inr (fl (fl (of_nat d_used / of_nat d_total) * 100))"
    and "0 \<le> fl (fl (of_nat d_used / of_nat d_total) * 100)"
    and "fl (fl (of_nat d_used / of_nat d_total) * 100) \<le> 100"
proof -
  let ?q = "(of_nat d_used :: rat) / of_nat d_total"
  have q0: "0 \<le> ?q" by simp
  have q1: "?q \<le> 1" using assms by simp
  have "\<bar>?q\<bar> \<le> 18446744073709551616" using q0 q1 by linarith
  then have "truediv (of_nat d_used) (of_nat d_total) = Inr (fl ?q)"
    using assms(2) by (intro truediv_ok) simp_all
  then show "disk_pct d_used d_total = Inr (fl (fl ?q * 100))"
    using assms(2) by (simp add: disk_pct_def bind_res_def)
  have f0: "0 \<le> fl ?q" using q0 by (rule fl_nonneg)
  have f1: "fl ?q \<le> 1" using fl_mono [OF q0 q1] by (simp add: fl_one)
  from f0 show "0 \<le> fl (fl ?q * 100)" by (intro fl_nonneg) simp
  have "fl (fl ?q * 100) \<le> fl 100" using f0 f1 by (intro fl_mono) simp_all
  then show "fl (fl ?q * 100) \<le> 100" by (simp add: fl_hundred)
qed

text \<open>
  Claim C6. The disk percentage is 0 when the total is 0, the division never raises
  \<open>ZeroDivisionError\<close>, for a non-zero total (and a quotient within the range of a
  float) it is the float quotient of used by total, times 100, and whenever used is at
  most total the percentage is computed without raising and lies between 0 and 100.
\<close>

theorem disk_pct_guarded:
  "disk_pct d_used 0 = Inr 0
   \<and> disk_pct d_used d_total \<noteq> Inl ZeroDivisionError
   \<and> (d_total \<noteq> 0 \<and> \<not> dbl_overflow (of_nat d_used / of_nat d_total) \<longrightarrow>
        disk_pct d_used d_total = Inr (fl (fl (of_nat d_used / of_nat d_total) * 100)))
   \<and> (d_used \<le> d_total \<longrightarrow>
        (\<exists>pct. disk_pct d_used d_total = Inr pct \<and> 0 \<le> pct \<and> pct \<le> 100))"
proof -
  have A: "disk_pct d_used 0 = Inr 0" by (simp add: disk_pct_def)
  have B: "disk_pct d_used d_total \<noteq> Inl ZeroDivisionError"
    by (simp add: disk_pct_def truediv_def bind_res_def)
  have C: "disk_pct d_used d_total = Inr (fl (fl (of_nat d_used / of_nat d_total) * 100))"
    if "d_total \<noteq> 0 \<and> \<not> dbl_overflow (of_nat d_used / of_nat d_total)"
    using that by (simp add: disk_pct_def truediv_def bind_res_def)
  have D: "\<exists>pct. disk_pct d_used d_total = Inr pct \<and> 0 \<le> pct \<and> pct \<le> 100"
    if "d_used \<le> d_total"
  proof (cases "d_total = 0")
    case True
    then show ?thesis by (simp add: disk_pct_def)
  next
    case False
    with that disk_pct_in_range [of d_used d_total] show ?thesis by blast
  qed
  from A B C D show ?thesis by blast
qed

theorem disk_pct_guarded_witness:
  "disk_pct 7 0 = Inr 0
   \<and> (8000000000::nat) \<noteq> 0 \<and> \<not> dbl_overflow (of_nat 4000000000 / of_nat 8000000000)
   \<and> disk_pct 4000000000 8000000000 = Inr 50
   \<and> (1::nat) \<le> 3
   \<and> (\<exists>pct. disk_pct 1 3 = Inr pct \<and> 0 \<le> pct \<and> pct \<le> 100)"
proof -
  have half: "fl (fl (of_nat 4000000000 / of_nat 8000000000) * 100) = 50"
    by (simp add: fl_eval)
  have "disk_pct 7 0 = Inr 0"
    using disk_pct_guarded [of 7 0] by blast
  moreover have fin: "\<not> dbl_overflow (of_nat 4000000000 / of_nat 8000000000)"
    by (simp add: dbl_overflow_def)
  moreover have "disk_pct 4000000000 8000000000 = Inr 50"
    using disk_pct_guarded [of 4000000000 8000000000] half fin by simp
  moreover have "(1::nat) \<le> 3" by simp
  then have "\<exists>pct. disk_pct 1 3 = Inr pct \<and> 0 \<le> pct \<and> pct \<le> 100"
    using disk_pct_guarded [of 1 3] by blast
  ultimately show ?thesis by simp
qed

section \<open>Command truncation\<close>

text \<open>
  Claim C4. A command longer than 100 characters becomes its first 97 characters
  followed by the three-character marker, 100 characters in all; a command of at most
  100 characters is unchanged; a command of 150 characters becomes 100 characters that
  end in the marker.
\<close>

theorem truncate_cmd_spec:
  "(length cmd > 100 \<longrightarrow>
      truncate_cmd cmd = take 97 cmd @ lit ''...'' \<and> length (truncate_cmd cmd) = 100)
   \<and> (length cmd \<le> 100 \<longrightarrow> truncate_cmd cmd = cmd)
   \<and> (length cmd = 150 \<longrightarrow>
      length (truncate_cmd cmd) = 100 \<and> drop 97 (truncate_cmd cmd) = lit ''...'')"
  by (auto simp: truncate_cmd_def lit_def)

theorem truncate_cmd_spec_witness:
  "length (replicate 150 (97::nat)) > 100
   \<and> length (replicate 150 (97::nat)) = 150
   \<and> truncate_cmd (replicate 150 97) = replicate 97 97 @ lit ''...''
   \<and> length (truncate_cmd (replicate 150 97)) = 100
   \<and> drop 97 (truncate_cmd (replicate 150 97)) = lit ''...''
   \<and> length (lit ''ls -l'') \<le> 100
   \<and> truncate_cmd (lit ''ls -l'') = lit ''ls -l''"
  using truncate_cmd_spec [of "replicate 150 97"] truncate_cmd_spec [of "lit ''ls -l''"]
  by (simp add: lit_def)

section \<open>The update interval\<close>

lemma handle_bounds:
  "250 \<le> update_interval s \<and> update_interval s \<le> 10000 \<Longrightarrow>
   250 \<le> update_interval (handle s r) \<and> update_interval (handle s r) \<le> 10000"
  by (cases r) (auto simp: increase_interval_def decrease_interval_def)

lemma foldl_handle_bounds:
  "250 \<le> update_interval s \<and> update_interval s \<le> 10000 \<Longrightarrow>
   250 \<le> update_interval (foldl handle s reqs) \<and> update_interval (foldl handle s reqs) \<le> 10000"
proof (induction reqs arbitrary: s)
  case Nil
  then show ?case by simp
next
  case (Cons r reqs)
  from handle_bounds [OF Cons.prems] show ?case
    by (simp add: Cons.IH)
qed

text \<open>
  Claim C5. From an interval between 250 and 10000 milliseconds, an increase sets it to
  the minimum of the interval plus 500 and 10000, a decrease to the maximum of the
  interval minus 500 and 250, and after any sequence of requests, also one followed by
  any number of further increases, the interval is still between 250 and 10000.
\<close>

theorem interval_bounded:
  assumes "250 \<le> update_interval s" and "update_interval s \<le> 10000"
  shows "update_interval (increase_interval s) = min (update_interval s + 500) 10000
       \<and> update_interval (decrease_interval s) = max (update_interval s - 500) 250
       \<and> 250 \<le> update_interval (handle_all reqs s)
       \<and> update_interval (handle_all reqs s) \<le> 10000
       \<and> update_interval (handle_all (reqs @ replicate k Increase) s) \<le> 10000"
  using assms foldl_handle_bounds [of s reqs]
    foldl_handle_bounds [of s "reqs @ replicate k Increase"]
  by (simp add: handle_all_def increase_interval_def decrease_interval_def)

theorem interval_bounded_witness:
  "250 \<le> update_interval app0 \<and> update_interval app0 \<le> 10000
   \<and> update_interval (increase_interval app0) = 9500
   \<and> update_interval (decrease_interval app0) = 8500
   \<and> update_interval (handle_all [Increase, Increase, Increase] app0) = 10000
   \<and> update_interval (handle_all ([Increase, Increase, Increase] @ replicate 4 Increase) app0)
       \<le> 10000"
  using interval_bounded [of app0 "[Increase, Increase, Increase]" 4]
  by (simp add: app0_def handle_all_def increase_interval_def decrease_interval_def)

section \<open>The process table: parsing, sorting and the examples\<close>

lemma foldl_digits: "foldl (\<lambda>a c. 10 * a + (c - 48)) 0 (digits_of n) = n"
proof (induction n rule: digits_of.induct)
  case (1 n)
  show ?case
  proof (cases "n < 10")
    case True
    then show ?thesis by (subst digits_of.simps) simp
  next
    case False
    with "1.IH" show ?thesis by (subst digits_of.simps) simp
  qed
qed

lemma nat_of_digits_digits_of: "nat_of_digits (digits_of n) = Some n"
  by (simp add: nat_of_digits_def digits_of_nonempty digits_of_digits foldl_digits)

lemma nat_of_digits_single: "d < 10 \<Longrightarrow> nat_of_digits [48 + d] = Some d"
  by (simp add: nat_of_digits_def is_digit_def)

lemma digits_no_point:
  assumes "c \<in> set (digits_of n)"
  shows "c \<noteq> 46" and "c \<noteq> 45"
  using assms digits_of_digits [of n] by (auto simp: list_all_iff is_digit_def)

lemma round_half_even_nonneg: "0 \<le> x \<Longrightarrow> 0 \<le> round_half_even x"
  using round_half_even_mono [of 0 x] round_half_even_of_int [of 0] by simp

lemma float_of_str_fmt1: "float_of_str (fmt1 x) = Some (fl (round1 x))"
proof -
  define m where "m = nat (round_half_even (\<bar>x\<bar> * 10))"
  define ds where "ds = digits_of (m div 10)"
  define body where "body = ds @ [46, 48 + m mod 10]"
  have fmt: "fmt1 x = (if x < 0 then [45] else []) @ body"
    by (simp add: fmt1_def m_def ds_def body_def Let_def)
  have ds_ne: "ds \<noteq> []" by (simp add: ds_def digits_of_nonempty)
  then have "hd body = hd ds" by (simp add: body_def)
  moreover have "hd ds \<in> set ds" using ds_ne by simp
  ultimately have hd_body: "hd body \<noteq> 45"
    using digits_no_point(2) [of "hd ds" "m div 10"] by (simp add: ds_def)
  have body_ne: "body \<noteq> []" by (simp add: body_def)
  have neg: "(fmt1 x \<noteq> [] \<and> hd (fmt1 x) = 45) \<longleftrightarrow> x < 0"
    using hd_body body_ne by (simp add: fmt)
  have rest: "(if x < 0 then tl (fmt1 x) else fmt1 x) = body"
    by (simp add: fmt)
  have no_point: "\<And>c. c \<in> set ds \<Longrightarrow> c \<noteq> 46"
    using digits_no_point(1) by (simp add: ds_def)
  have ip: "takeWhile (\<lambda>c. c \<noteq> 46) body = ds"
    using no_point by (simp add: body_def takeWhile_append2)
  have fp: "drop 1 (dropWhile (\<lambda>c. c \<noteq> 46) body) = [48 + m mod 10]"
    using no_point by (simp add: body_def dropWhile_append2)
  have a: "nat_of_digits ds = Some (m div 10)"
    by (simp add: ds_def nat_of_digits_digits_of)
  have b: "nat_of_digits [48 + m mod 10] = Some (m mod 10)"
    by (rule nat_of_digits_single) simp
  have "(of_nat (m div 10) :: rat) + of_nat (m mod 10) / 10 = of_nat (10 * (m div 10) + m mod 10) / 10"
    by (simp only: of_nat_add of_nat_mult add_divide_distrib)
  then have val: "(of_nat (m div 10) :: rat) + of_nat (m mod 10) / 10 = of_nat m / 10"
    by simp
  have "0 \<le> round_half_even (\<bar>x\<bar> * 10)"
    by (rule round_half_even_nonneg) simp
  then have m_eq: "(of_nat m :: rat) = of_int (round_half_even (\<bar>x\<bar> * 10))"
    by (simp add: m_def)
  have "float_of_str (fmt1 x)
      = Some (fl ((if x < 0 then - 1 else 1) * (of_nat (m div 10) + of_nat (m mod 10) / 10)))"
    unfolding float_of_str_def neg rest Let_def ip fp a b by simp
  then show ?thesis
    by (simp add: val m_eq round1_def)
qed

lemma try_row_cpu:
  assumes "try_row clock p = Inr r"
  shows "\<exists>c. cpu_percent p = Some c \<and> row_cpu r = fmt1 c"
  using assms
  by (auto simp: try_row_def bind_res_def split: sum.splits option.splits)

lemma cpu_key_try_row:
  assumes "try_row clock p = Inr r" and "cpu_percent p = Some c"
  shows "cpu_key r = fl (round1 c)"
  using try_row_cpu [OF assms(1)] assms(2)
  by (auto simp: cpu_key_def float_of_str_fmt1)

lemma build_rows_enumerated:
  "build_rows clock ps acc = Inr rows \<Longrightarrow> rows = acc @ enumerated_rows clock ps"
proof (induction ps arbitrary: acc)
  case Nil
  then show ?case by (simp add: enumerated_rows_def)
next
  case (Cons p ps)
  show ?case
  proof (cases "try_row clock p")
    case (Inl e)
    with Cons.prems have "build_rows clock ps acc = Inr rows"
      by (simp split: if_splits)
    from Cons.IH [OF this] Inl show ?thesis
      by (simp add: enumerated_rows_def)
  next
    case (Inr r)
    with Cons.prems have "build_rows clock ps (acc @ [r]) = Inr rows" by simp
    from Cons.IH [OF this] Inr show ?thesis
      by (simp add: enumerated_rows_def)
  qed
qed

lemma sort_rows_result:
  "sort_rows rows = Inr s \<Longrightarrow> s = rev (sort_key cpu_key (rev rows))"
  by (simp add: sort_rows_def split: if_splits)

lemma update_procs_rows_result:
  assumes "update_procs_rows clock ps = Inr out"
  shows "out = take 80 (rev (sort_key cpu_key (rev (enumerated_rows clock ps))))"
proof -
  from assms obtain rows s where
    "build_rows clock ps [] = Inr rows" "sort_rows rows = Inr s" "out = take 80 s"
    by (auto simp: update_procs_rows_def bind_res_def split: sum.splits)
  with build_rows_enumerated [of clock ps "[]" rows] sort_rows_result [of rows s]
  show ?thesis by simp
qed

lemma sorted_desc_sort:
  "sorted_wrt (\<lambda>a b. cpu_key b \<le> cpu_key a) (rev (sort_key cpu_key xs))"
  using sorted_sort_key [of cpu_key xs]
  by (simp add: sorted_wrt_rev sorted_map)

lemma stable_desc_sort:
  "filter (\<lambda>r. cpu_key r = k) (rev (sort_key cpu_key (rev xs))) = filter (\<lambda>r. cpu_key r = k) xs"
proof -
  have "filter (\<lambda>r. cpu_key r = k) (rev (sort_key cpu_key (rev xs)))
      = rev (filter (\<lambda>r. cpu_key r = k) (sort_key cpu_key (rev xs)))"
    by (simp add: rev_filter)
  also have "\<dots> = rev (filter (\<lambda>r. cpu_key r = k) (rev xs))"
    by (simp only: sort_key_stable)
  also have "\<dots> = filter (\<lambda>r. cpu_key r = k) xs"
    by (simp add: rev_filter)
  finally show ?thesis .
qed

lemma prefix_filter_take: "prefix (filter P (take n xs)) (filter P xs)"
proof -
  have "filter P xs = filter P (take n xs) @ filter P (drop n xs)"
    by (metis append_take_drop_id filter_append)
  then show ?thesis by (metis prefixI)
qed

lemma filter_by_text:
  "filter (\<lambda>r. row_cpu r = v) xs
   = filter (\<lambda>r. row_cpu r = v)
       (filter (\<lambda>r. cpu_key r = (case float_of_str v of Some x \<Rightarrow> x | None \<Rightarrow> 0)) xs)"
  by (induction xs) (auto simp: cpu_key_def)


text \<open>The example processes, evaluated.\<close>

lemmas row_eval = try_row_def command_words_def truncate_cmd_def noon_def b2h_eval

lemma try_row_a: "try_row noon proc_a = Inr row_a"
  by (simp add: row_eval proc_a_def row_a_def)

lemma try_row_b: "try_row noon proc_b = Inr row_b"
  by (simp add: row_eval proc_b_def row_b_def)

lemma try_row_hot: "try_row noon proc_hot = Inr row_hot"
  by (simp add: row_eval proc_hot_def row_hot_def)

lemma try_row_gone: "try_row noon proc_gone = Inl NoSuchProcess"
  by (simp add: row_eval proc_gone_def)

lemma try_row_denied: "try_row noon proc_denied = Inl TypeError"
  by (simp add: row_eval proc_denied_def)

lemmas key_eval = cpu_key_def float_of_str_def nat_of_digits_def is_digit_def lit_def fl_eval

lemma key_a: "float_of_str (row_cpu row_a) = Some (5404319552844595 / 18014398509481984)"
  by (simp add: row_a_def key_eval)

lemma key_b: "float_of_str (row_cpu row_b) = Some (5404319552844595 / 18014398509481984)"
  by (simp add: row_b_def key_eval)

lemma key_hot: "float_of_str (row_cpu row_hot) = Some (199 / 2)"
  by (simp add: row_hot_def key_eval)

lemma rows_example:
  "update_procs_rows noon [proc_a, proc_gone, proc_hot, proc_b] = Inr [row_hot, row_a, row_b]"
  by (simp add: update_procs_rows_def bind_res_def sort_rows_def cpu_key_def
      try_row_a try_row_b try_row_hot try_row_gone key_a key_b key_hot
      del: not_None_eq)

lemma rows_tie:
  "update_procs_rows noon [proc_a, proc_b] = Inr [row_a, row_b]"
  by (simp add: update_procs_rows_def bind_res_def sort_rows_def cpu_key_def
      try_row_a try_row_b key_a key_b
      del: not_None_eq)

lemma rows_denied:
  "update_procs_rows noon [proc_a, proc_denied] = Inl TypeError"
  by (simp add: update_procs_rows_def bind_res_def try_row_a try_row_denied)

text \<open>
  Claim C1. Whenever the snapshot returns, it returns at most 80 rows, namely the
  first 80 of the rows built in enumeration order after the sort; they are ordered
  non-increasing in the CPU value that the row shows, and for every such value the
  rows with that value appear in their enumeration order.
\<close>

theorem update_procs_rows_ranked:
  assumes "update_procs_rows clock ps = Inr out"
  shows "length out \<le> 80
       \<and> length out = min 80 (length (enumerated_rows clock ps))
       \<and> set out \<subseteq> set (enumerated_rows clock ps)
       \<and> sorted_wrt (\<lambda>a b. cpu_key b \<le> cpu_key a) out
       \<and> (\<forall>k. prefix (filter (\<lambda>r. cpu_key r = k) out)
                      (filter (\<lambda>r. cpu_key r = k) (enumerated_rows clock ps)))"
proof -
  let ?rows = "enumerated_rows clock ps"
  let ?s = "rev (sort_key cpu_key (rev ?rows))"
  have out: "out = take 80 ?s" using update_procs_rows_result [OF assms] .
  have len: "length out = min 80 (length ?rows)" by (simp add: out min.commute)
  have "set out \<subseteq> set ?s" unfolding out by (rule set_take_subset)
  then have sub: "set out \<subseteq> set ?rows" by simp
  have srt: "sorted_wrt (\<lambda>a b. cpu_key b \<le> cpu_key a) out"
    unfolding out using sorted_desc_sort by (rule sorted_wrt_take)
  have stable: "prefix (filter (\<lambda>r. cpu_key r = k) out) (filter (\<lambda>r. cpu_key r = k) ?rows)" for k
    using prefix_filter_take [of "\<lambda>r. cpu_key r = k" 80 ?s]
    by (simp add: out stable_desc_sort)
  from len sub srt stable show ?thesis by simp
qed


theorem update_procs_rows_ranked_witness:
  "update_procs_rows noon [proc_a, proc_gone, proc_hot, proc_b] = Inr [row_hot, row_a, row_b]
   \<and> length [row_hot, row_a, row_b] \<le> 80
   \<and> cpu_key row_a \<le> cpu_key row_hot
   \<and> cpu_key row_b \<le> cpu_key row_a
   \<and> cpu_key row_a = cpu_key row_b"
proof -
  have "cpu_key row_a = cpu_key row_b"
    by (simp add: cpu_key_def key_a key_b)
  with rows_example update_procs_rows_ranked [OF rows_example] show ?thesis
    by simp
qed

text \<open>
  Claim C10. The sort key of a row is the CPU value after formatting to one decimal
  place and parsing back, \<open>fl (round1 c)\<close> for the raw value \<open>c\<close>; the table is
  non-increasing in this key; rows that show the same one-decimal text keep their
  enumeration order; and the raw values need not be non-increasing: there are two
  processes, the first with the smaller raw value, that the table shows in
  enumeration order.
\<close>

theorem sort_compares_rounded_cpu:
  assumes "update_procs_rows clock ps = Inr out"
  shows "(\<forall>p r c. try_row clock p = Inr r \<and> cpu_percent p = Some c
            \<longrightarrow> row_cpu r = fmt1 c \<and> cpu_key r = fl (round1 c))
       \<and> sorted_wrt (\<lambda>a b. cpu_key b \<le> cpu_key a) out
       \<and> (\<forall>v. prefix (filter (\<lambda>r. row_cpu r = v) out)
                      (filter (\<lambda>r. row_cpu r = v) (enumerated_rows clock ps)))
       \<and> (\<exists>p q a b rp rq. cpu_percent p = Some a \<and> cpu_percent q = Some b \<and> a < b
            \<and> try_row noon p = Inr rp \<and> try_row noon q = Inr rq
            \<and> update_procs_rows noon [p, q] = Inr [rp, rq])"
proof -
  let ?rows = "enumerated_rows clock ps"
  let ?s = "rev (sort_key cpu_key (rev ?rows))"
  have out: "out = take 80 ?s" using update_procs_rows_result [OF assms] .
  have key: "\<forall>p r c. try_row clock p = Inr r \<and> cpu_percent p = Some c
            \<longrightarrow> row_cpu r = fmt1 c \<and> cpu_key r = fl (round1 c)"
    using try_row_cpu cpu_key_try_row by fastforce
  have srt: "sorted_wrt (\<lambda>a b. cpu_key b \<le> cpu_key a) out"
    unfolding out using sorted_desc_sort by (rule sorted_wrt_take)
  have tie: "prefix (filter (\<lambda>r. row_cpu r = v) out) (filter (\<lambda>r. row_cpu r = v) ?rows)" for v
  proof -
    let ?k = "case float_of_str v of Some x \<Rightarrow> x | None \<Rightarrow> 0"
    have "prefix (filter (\<lambda>r. cpu_key r = ?k) out) (filter (\<lambda>r. cpu_key r = ?k) ?rows)"
      using prefix_filter_take [of "\<lambda>r. cpu_key r = ?k" 80 ?s]
      by (simp add: out stable_desc_sort)
    then obtain zs where "filter (\<lambda>r. cpu_key r = ?k) ?rows = filter (\<lambda>r. cpu_key r = ?k) out @ zs"
      by (auto simp: prefix_def)
    then have "filter (\<lambda>r. row_cpu r = v) (filter (\<lambda>r. cpu_key r = ?k) ?rows)
        = filter (\<lambda>r. row_cpu r = v) (filter (\<lambda>r. cpu_key r = ?k) out)
          @ filter (\<lambda>r. row_cpu r = v) zs"
      by (simp only: filter_append)
    then show ?thesis
      by (metis filter_by_text prefixI)
  qed
  have "cpu_percent proc_a = Some (5 / 16) \<and> cpu_percent proc_b = Some (11 / 32)
      \<and> (5 / 16 :: rat) < 11 / 32"
    by (simp add: proc_a_def proc_b_def)
  with try_row_a try_row_b rows_tie
  have raw: "\<exists>p q a b rp rq. cpu_percent p = Some a \<and> cpu_percent q = Some b \<and> a < b
            \<and> try_row noon p = Inr rp \<and> try_row noon q = Inr rq
            \<and> update_procs_rows noon [p, q] = Inr [rp, rq]"
    by blast
  from key srt tie raw show ?thesis by blast
qed

theorem sort_compares_rounded_cpu_witness:
  "update_procs_rows noon [proc_a, proc_b] = Inr [row_a, row_b]
   \<and> try_row noon proc_b = Inr row_b \<and> cpu_percent proc_b = Some (11 / 32)
   \<and> row_cpu row_b = fmt1 (11 / 32)
   \<and> cpu_key row_b = fl (round1 (11 / 32))
   \<and> round1 (11 / 32) = 3 / 10
   \<and> round1 (5 / 16) = 3 / 10"
proof -
  have c: "cpu_percent proc_b = Some (11 / 32)"
    by (simp add: proc_b_def)
  have r: "round1 (11 / 32) = 3 / 10 \<and> round1 (5 / 16) = 3 / 10"
    by (simp add: round1_def fl_eval)
  from sort_compares_rounded_cpu [OF rows_tie] try_row_b c
  have "row_cpu row_b = fmt1 (11 / 32) \<and> cpu_key row_b = fl (round1 (11 / 32))"
    by blast
  with rows_tie try_row_b c r show ?thesis by simp
qed

text \<open>
  Claim C2, at a process whose CPU value was denied: psutil stores \<open>None\<close> for it, the
  format raises \<open>TypeError\<close>, the \<open>except\<close> clause does not catch it, and the snapshot
  raises instead of skipping the process.
\<close>

theorem update_procs_rows_denied_raises:
  "cpu_percent proc_denied = None
   \<and> try_row noon proc_denied = Inl TypeError
   \<and> \<not> caught TypeError
   \<and> update_procs_rows noon [proc_a, proc_denied] = Inl TypeError"
  using try_row_denied rows_denied by (simp add: proc_denied_def)

section \<open>The update loop never stops\<close>

lemma tick_body_frame:
  "update_interval (snd (tick_body env s)) = update_interval s
   \<and> stderr (snd (tick_body env s)) = stderr s
   \<and> pending (snd (tick_body env s)) = pending s
   \<and> fst (tick_body env s) = fst (tick_body env s0)"
  by (auto simp: tick_body_def update_mem_swap_disk_def update_procs_def
      split: option.splits sum.splits prod.splits)

lemma update_all_effect:
  "update_interval (update_all env s) = update_interval s
   \<and> pending (update_all env s) = pending s @ [update_interval s]
   \<and> stderr (update_all env s)
       = stderr s @ (case fst (tick_body env s) of None \<Rightarrow> [] | Some e \<Rightarrow> [e])"
proof (cases "tick_body env s")
  case (Pair err s1)
  from tick_body_frame [of env s s] Pair
  have "update_interval s1 = update_interval s" "stderr s1 = stderr s" "pending s1 = pending s"
    by simp_all
  with Pair show ?thesis
    by (cases err) (simp_all add: update_all_def)
qed

lemma mainloop_runs:
  assumes "pending s \<noteq> []"
  shows "\<exists>s'. mainloop envs s = Some s' \<and> pending s' \<noteq> []
            \<and> update_interval s' = update_interval s
            \<and> stderr s' = stderr s @ List.map_filter (\<lambda>env. fst (tick_body env s)) envs"
  using assms
proof (induction envs arbitrary: s)
  case Nil
  then show ?case by (simp add: List.map_filter_simps)
next
  case (Cons env envs)
  from Cons.prems obtain d ds where p: "pending s = d # ds"
    by (cases "pending s") auto
  let ?s0 = "s\<lparr>pending := ds\<rparr>"
  let ?s1 = "update_all env ?s0"
  have fire: "fire env s = Some ?s1"
    by (simp add: fire_def p)
  have eff: "update_interval ?s1 = update_interval s" "pending ?s1 \<noteq> []"
    "stderr ?s1 = stderr s @ (case fst (tick_body env s) of None \<Rightarrow> [] | Some e \<Rightarrow> [e])"
    using update_all_effect [of env ?s0] tick_body_frame [of env ?s0 s] by simp_all
  from Cons.IH [OF eff(2)] obtain s' where s':
    "mainloop envs ?s1 = Some s'" "pending s' \<noteq> []" "update_interval s' = update_interval ?s1"
    "stderr s' = stderr ?s1 @ List.map_filter (\<lambda>e. fst (tick_body e ?s1)) envs"
    by blast
  have same: "List.map_filter (\<lambda>e. fst (tick_body e ?s1)) envs
            = List.map_filter (\<lambda>e. fst (tick_body e s)) envs"
    using tick_body_frame [of _ ?s1 s] by (metis (no_types, lifting))
  show ?case
    using fire s' eff same
    by (cases "fst (tick_body env s)") (simp_all add: List.map_filter_simps)
qed

lemma disk_half: "disk_pct 4000000000 8000000000 = Inr 50"
  by (simp add: disk_pct_def truediv_def dbl_overflow_def bind_res_def fl_eval)

lemma tick_bad: "fst (tick_body env_bad app0) = Some TypeError"
  by (simp add: tick_body_def update_mem_swap_disk_def update_procs_def env_bad_def
      disk_half rows_denied)

lemma tick_ok: "fst (tick_body env_ok app0) = None"
  by (simp add: tick_body_def update_mem_swap_disk_def update_procs_def env_ok_def
      disk_half rows_example)

text \<open>
  Claim C3. Every tick schedules the next one, whatever the steps raise; a tick in
  which a step raises appends the exception to the error output; and from a state with
  a pending timer the loop runs one tick for every host answer, ends with a pending
  timer, and has reported exactly the exceptions of the ticks that raised.
\<close>

theorem update_all_never_stops:
  "pending (update_all env s) = pending s @ [update_interval s]
   \<and> (tick_raises env s \<longrightarrow>
        (\<exists>e. fst (tick_body env s) = Some e \<and> stderr (update_all env s) = stderr s @ [e]))
   \<and> (\<not> tick_raises env s \<longrightarrow> stderr (update_all env s) = stderr s)
   \<and> (pending s \<noteq> [] \<longrightarrow>
        (\<exists>s'. mainloop envs s = Some s' \<and> pending s' \<noteq> []
           \<and> stderr s' = stderr s @ List.map_filter (\<lambda>env. fst (tick_body env s)) envs))"
proof -
  have "pending s \<noteq> [] \<longrightarrow>
        (\<exists>s'. mainloop envs s = Some s' \<and> pending s' \<noteq> []
           \<and> stderr s' = stderr s @ List.map_filter (\<lambda>env. fst (tick_body env s)) envs)"
    using mainloop_runs [of s envs] by blast
  then show ?thesis
    using update_all_effect [of env s]
    by (auto simp: tick_raises_def)
qed

theorem update_all_never_stops_witness:
  "tick_raises env_bad app0 \<and> \<not> tick_raises env_ok app0
   \<and> pending app0 \<noteq> []
   \<and> stderr (update_all env_bad app0) = [TypeError]
   \<and> pending (update_all env_bad app0) = [9000, 9000]
   \<and> stderr (update_all env_ok app0) = []
   \<and> (\<exists>s'. mainloop [env_bad, env_ok] app0 = Some s' \<and> pending s' \<noteq> []
          \<and> stderr s' = [TypeError])"
proof -
  have r: "tick_raises env_bad app0" "\<not> tick_raises env_ok app0"
    by (simp_all add: tick_raises_def tick_bad tick_ok)
  have p: "pending app0 \<noteq> []" "pending app0 = [9000]" "update_interval app0 = 9000"
    "stderr app0 = []"
    by (simp_all add: app0_def)
  from update_all_never_stops [of env_bad app0 "[env_bad, env_ok]"] r p tick_bad tick_ok
  have "stderr (update_all env_bad app0) = [TypeError]"
    "pending (update_all env_bad app0) = [9000, 9000]"
    "\<exists>s'. mainloop [env_bad, env_ok] app0 = Some s' \<and> pending s' \<noteq> []
          \<and> stderr s' = [TypeError]"
    by (simp_all add: List.map_filter_simps)
  moreover from update_all_never_stops [of env_ok app0 "[]"] r p
  have "stderr (update_all env_ok app0) = []"
    by simp
  ultimately show ?thesis using r p by simp
qed

section \<open>Loading the settings\<close>

text \<open>
  Claim C9 as stated fails for a file that cannot be parsed: \<open>load_settings\<close> raises the
  parser's error instead of returning the defaults.
\<close>

theorem load_settings_corrupt_counterexample:
  "load_settings int_of_decimal Corrupt \<noteq> Inr (10, 1000, lit ''auto'')"
  by (simp add: load_settings_def read_cfg_def bind_res_def)

text \<open>
  Claim C9, amended. A missing file yields the defaults 10, 1000 and \<open>auto\<close>; a file
  that cannot be parsed makes \<open>load_settings\<close> raise; a parsed file without the three
  keys yields the defaults; and whenever a parsed file is loaded, each absent key has
  its default.
\<close>

theorem load_settings_defaults:
  "load_settings int_of Missing = Inr (10, 1000, lit ''auto'')
   \<and> load_settings int_of Corrupt = Inl ParsingError
   \<and> (lookup_option cfg (lit ''ui'') (lit ''font_size'') = None
        \<and> lookup_option cfg (lit ''ui'') (lit ''update_interval_ms'') = None
        \<and> lookup_option cfg (lit ''ui'') (lit ''theme_mode'') = None
      \<longrightarrow> load_settings int_of (Parsed cfg) = Inr (10, 1000, lit ''auto''))
   \<and> (load_settings int_of (Parsed cfg) = Inr (fs, interval, mode) \<longrightarrow>
        (lookup_option cfg (lit ''ui'') (lit ''font_size'') = None \<longrightarrow> fs = 10)
      \<and> (lookup_option cfg (lit ''ui'') (lit ''update_interval_ms'') = None \<longrightarrow> interval = 1000)
      \<and> (lookup_option cfg (lit ''ui'') (lit ''theme_mode'') = None \<longrightarrow> mode = lit ''auto''))"
  by (auto simp: load_settings_def read_cfg_def bind_res_def getint_def get_def lookup_option_def
      split: option.splits sum.splits)

theorem load_settings_defaults_witness:
  "lookup_option cfg_font (lit ''ui'') (lit ''update_interval_ms'') = None
   \<and> lookup_option cfg_font (lit ''ui'') (lit ''theme_mode'') = None
   \<and> load_settings int_of_decimal (Parsed cfg_font) = Inr (12, 1000, lit ''auto'')
   \<and> lookup_option [] (lit ''ui'') (lit ''font_size'') = None
   \<and> load_settings int_of_decimal (Parsed []) = Inr (10, 1000, lit ''auto'')
   \<and> load_settings int_of_decimal Missing = Inr (10, 1000, lit ''auto'')"
proof -
  have ev: "load_settings int_of_decimal (Parsed cfg_font) = Inr (12, 1000, lit ''auto'')"
    by (simp add: load_settings_def read_cfg_def bind_res_def getint_def get_def
        lookup_option_def cfg_font_def int_of_decimal_def nat_of_digits_def is_digit_def lit_def)
  have none: "lookup_option cfg_font (lit ''ui'') (lit ''update_interval_ms'') = None
      \<and> lookup_option cfg_font (lit ''ui'') (lit ''theme_mode'') = None
      \<and> lookup_option [] (lit ''ui'') (lit ''font_size'') = None"
    by (simp add: lookup_option_def cfg_font_def lit_def)
  have empty: "lookup_option [] (lit ''ui'') (lit ''font_size'') = None
      \<and> lookup_option [] (lit ''ui'') (lit ''update_interval_ms'') = None
      \<and> lookup_option [] (lit ''ui'') (lit ''theme_mode'') = None"
    by (simp add: lookup_option_def)
  from load_settings_defaults [of int_of_decimal "[]"] empty
  have "load_settings int_of_decimal (Parsed []) = Inr (10, 1000, lit ''auto'')"
    and "load_settings int_of_decimal Missing = Inr (10, 1000, lit ''auto'')"
    by blast+
  with ev none show ?thesis by simp
qed

end
